theory Spec2Isabelle
  imports Complex_Main "HOL-Library.AList"
begin

section \<open>Data model\<close>

text \<open>
  The program is TypeScript. A JavaScript \<open>number\<close> is modelled as a \<^typ>\<open>real\<close>:
  the arithmetic of the source is kept expression by expression, rounding, infinities and
  NaN are not modelled. Where the source divides by a value that can be zero the model
  says what the comparison that follows does in JavaScript. Clock readings
  (\<open>Date.now()\<close>, integer milliseconds) are \<^typ>\<open>int\<close> parameters.
  Token mints, venue names and ids are strings.
\<close>

text \<open>\<open>interface PriceQuote\<close> of the shared types. \<open>DexType\<close> is a union of string
  literals that is not checked at run time, so a venue is a string.\<close>

record PriceQuote =
  dex :: string
  inputMint :: string
  outputMint :: string
  inputAmount :: real
  outputAmount :: real
  price :: real
  priceImpact :: real
  fees :: real
  liquidity :: real
  route :: "string list option"
  timestamp :: int

text \<open>\<open>interface Edge\<close> of \<open>engine/graph.ts\<close>; the field names carry the prefix
  \<open>edge_\<close> because \<open>dex\<close> and \<open>price\<close> are fields of the quote too.\<close>

record Edge =
  edge_to :: string
  edge_dex :: string
  edge_price :: real
  edge_quote :: "PriceQuote option"

record Triangle =
  path :: "Edge list"
  profitBps :: real

section \<open>Rate graph (\<open>engine/graph.ts\<close>)\<close>

text \<open>\<open>adjList: Map<string, Edge[]>\<close>. Only \<open>has\<close>, \<open>get\<close> and \<open>set\<close> are used, so
  the order of the keys is not observable and the map is a partial function.\<close>

type_synonym TokenGraph = "string \<rightharpoonup> Edge list"

definition SOL :: string where
  "SOL = ''So11111111111111111111111111111111111111112''"

definition TOKENS :: "string list" where
  "TOKENS =
    [SOL,
     ''EPjFWdd5AufqSSqeM2qN1xzybapC8G4wEGGkZwyTDt1v'',
     ''Es9vMFrzaCERmJfrF4H2FYD4KCoNkY11McCe8BenwNYB'',
     ''4k3Dyjzvzp8eMZWUXbBCjEvwSkkk59S5iCNLY3QrkX6R'',
     ''orcaEKTdK7LKz57vaAYr9QeNsVEPfiu6QeMU1kektZE'',
     ''DezXAZ8z7PnrnRJjz3wXBoRgixCa6xjnB7YaB1pPB263'',
     ''JUPyiwrYJFskUPiHa7hkeR8VUtAeFoSYbKedZNsDvCN'']"

text \<open>The constructor: every known token starts with an empty edge list.\<close>

definition newTokenGraph :: TokenGraph where
  "newTokenGraph = fold (\<lambda>token g. g(token \<mapsto> [])) TOKENS Map.empty"

text \<open>\<open>Array.prototype.findIndex\<close>: the first index whose element satisfies the
  predicate; \<open>None\<close> stands for the result \<open>-1\<close>.\<close>

fun findIndex :: "('a \<Rightarrow> bool) \<Rightarrow> 'a list \<Rightarrow> nat option" where
  "findIndex P [] = None"
| "findIndex P (x # xs) = (if P x then Some 0 else map_option Suc (findIndex P xs))"

definition sameKey :: "string \<Rightarrow> string \<Rightarrow> Edge \<Rightarrow> bool" where
  "sameKey to_t dex_t e \<longleftrightarrow> edge_to e = to_t \<and> edge_dex e = dex_t"

text \<open>\<open>updateEdge(from, to, dex, price, quote?)\<close>. The edge array is mutated in place;
  in the model the stored list is replaced.\<close>

definition updateEdge ::
  "TokenGraph \<Rightarrow> string \<Rightarrow> string \<Rightarrow> string \<Rightarrow> real \<Rightarrow> PriceQuote option \<Rightarrow> TokenGraph" where
  "updateEdge g from_t to_t dex_t price_t quote_t =
    (let edges = (case g from_t of None \<Rightarrow> [] | Some es \<Rightarrow> es);
         e = \<lparr>edge_to = to_t, edge_dex = dex_t, edge_price = price_t, edge_quote = quote_t\<rparr>
     in case findIndex (sameKey to_t dex_t) edges of
          Some existingIndex \<Rightarrow> g(from_t \<mapsto> edges[existingIndex := e])
        | None \<Rightarrow> g(from_t \<mapsto> edges @ [e]))"

definition getNeighbors :: "TokenGraph \<Rightarrow> string \<Rightarrow> Edge list" where
  "getNeighbors g token = (case g token of None \<Rightarrow> [] | Some es \<Rightarrow> es)"

text \<open>\<open>findTriangles(startToken)\<close>: three nested loops, results in discovery order.\<close>

definition closeTriangle :: "string \<Rightarrow> Edge \<Rightarrow> Edge \<Rightarrow> Edge \<Rightarrow> Triangle list" where
  "closeTriangle startToken e1 e2 e3 =
    (if edge_to e3 \<noteq> startToken then []
     else let compositeRate = edge_price e1 * edge_price e2 * edge_price e3
          in if compositeRate > 1
             then [\<lparr>path = [e1, e2, e3], profitBps = (compositeRate - 1) * 10000\<rparr>]
             else [])"

definition findTriangles :: "TokenGraph \<Rightarrow> string \<Rightarrow> Triangle list" where
  "findTriangles g startToken =
    concat (map (\<lambda>e1.
      concat (map (\<lambda>e2.
        if edge_to e2 = startToken then []
        else concat (map (closeTriangle startToken e1 e2) (getNeighbors g (edge_to e2))))
      (getNeighbors g (edge_to e1))))
    (getNeighbors g startToken))"

text \<open>The key of an edge inside the list of its source token, and the invariant that no
  two edges out of one token share it.\<close>

definition edgeKey :: "Edge \<Rightarrow> string \<times> string" where
  "edgeKey e = (edge_to e, edge_dex e)"

definition uniqueEdges :: "TokenGraph \<Rightarrow> bool" where
  "uniqueEdges g \<longleftrightarrow> (\<forall>from_t es. g from_t = Some es \<longrightarrow> distinct (map edgeKey es))"

text \<open>A call of \<open>updateEdge\<close> as a value, to speak about sequences of calls.\<close>

record EdgeUpdate =
  u_from :: string
  u_to :: string
  u_dex :: string
  u_price :: real
  u_quote :: "PriceQuote option"

definition applyUpdate :: "TokenGraph \<Rightarrow> EdgeUpdate \<Rightarrow> TokenGraph" where
  "applyUpdate g u = updateEdge g (u_from u) (u_to u) (u_dex u) (u_price u) (u_quote u)"


section \<open>Price aggregator: cross-venue candidates\<close>

text \<open>An element of the \<open>opportunities\<close> array of \<open>getCrossExchangeQuotes\<close>.\<close>

record Candidate =
  c_buyDex :: string
  c_sellDex :: string
  c_buyQuote :: PriceQuote
  c_sellQuote :: PriceQuote
  c_spreadBps :: real
  c_estimatedProfit :: real

text \<open>
  \<open>spread = (sellQuote.price - (1 / buyQuote.price)) / (1 / buyQuote.price)\<close> and
  \<open>spreadBps = spread * 10000\<close>. For a buy price of zero JavaScript computes
  \<open>1 / 0 = Infinity\<close> and then \<open>-Infinity / Infinity = NaN\<close>; the result \<open>None\<close> stands
  for that NaN, for which the test \<open>spreadBps > 0\<close> is false.
\<close>

definition spreadBpsOf :: "PriceQuote \<Rightarrow> PriceQuote \<Rightarrow> real option" where
  "spreadBpsOf buyQ sellQ =
    (if price buyQ = 0 then None
     else Some (((price sellQ - (1 / price buyQ)) / (1 / price buyQ)) * 10000))"

definition candidateOf :: "PriceQuote \<Rightarrow> PriceQuote \<Rightarrow> Candidate list" where
  "candidateOf buyQ sellQ =
    (if dex buyQ = dex sellQ then []
     else case spreadBpsOf buyQ sellQ of
            None \<Rightarrow> []
          | Some sp \<Rightarrow>
              if sp > 0
              then [\<lparr>c_buyDex = dex buyQ, c_sellDex = dex sellQ,
                     c_buyQuote = buyQ, c_sellQuote = sellQ, c_spreadBps = sp,
                     c_estimatedProfit =
                       (outputAmount sellQ - inputAmount buyQ) - (fees buyQ + fees sellQ)\<rparr>]
              else [])"

text \<open>The part of \<open>getCrossExchangeQuotes\<close> after the two quote fetches: the double
  loop and the stable sort by descending spread.\<close>

definition getCrossExchangeQuotes :: "PriceQuote list \<Rightarrow> PriceQuote list \<Rightarrow> Candidate list" where
  "getCrossExchangeQuotes buyQuotes sellQuotes =
    sort_key (\<lambda>c. - c_spreadBps c)
      (concat (map (\<lambda>buyQ. concat (map (candidateOf buyQ) sellQuotes)) buyQuotes))"

section \<open>Opportunity detector (\<open>engine/detector.ts\<close>)\<close>

record PathLeg =
  leg_from :: string
  leg_to :: string
  leg_dex :: string
  leg_quote :: "PriceQuote option"

text \<open>
  \<open>interface ArbitrageOpportunity\<close>, with the fields \<open>isTriangular\<close> and \<open>path\<close> that the
  cyclic scan sets. \<open>opp_id\<close> is the field \<open>id\<close> and \<open>opp_path\<close> the field \<open>path\<close>. The
  quotes are declared \<open>PriceQuote\<close>; they are options here because the cyclic scan stores
  \<open>e.quote!\<close>, which is \<open>undefined\<close> at run time for an edge without a quote.
\<close>

record Opportunity =
  opp_id :: string
  tokenMint :: string
  tokenSymbol :: string
  isTriangular :: bool
  opp_path :: "PathLeg list option"
  buyDex :: string
  buyPrice :: real
  buyQuote :: "PriceQuote option"
  sellDex :: string
  sellPrice :: real
  sellQuote :: "PriceQuote option"
  spreadBps :: real
  estimatedProfitBps :: real
  estimatedProfitUsd :: real
  tradeSize :: real
  tradeSizeUsd :: real
  detectedAt :: int
  expiresAt :: int

record DetectorConfig =
  minProfitBps :: real
  maxSlippageBps :: real
  minLiquidityUsd :: real
  opportunityTtlMs :: int

text \<open>
  An observer callback acts on a world outside the detector (type \<open>'w\<close>) and either
  returns or throws an error with a message; the world it leaves behind is kept in both
  cases. Calls of the logger in the detector are collected in a list and are
  taken to return.
\<close>

type_synonym 'w Callback = "Opportunity \<Rightarrow> 'w \<Rightarrow> (string + unit) \<times> 'w"

datatype LogEntry =
  LogOpportunity string string string real real
| LogError string string

record 'w Detector =
  config :: DetectorConfig
  graph :: TokenGraph
  opportunities :: "(string \<times> Opportunity) list"
  opportunityHistory :: "Opportunity list"
  onOpportunityCallbacks :: "'w Callback list"

text \<open>\<open>opportunities\<close> is a \<open>Map<string, ArbitrageOpportunity>\<close>, which iterates in
  insertion order: an association list with distinct keys, \<open>Map.set\<close> is
  \<^const>\<open>AList.update\<close> (replace in place or append) and \<open>Map.delete\<close> is
  \<^const>\<open>AList.delete\<close>.\<close>

definition newDetector :: "DetectorConfig \<Rightarrow> 'w Detector" where
  "newDetector cfg =
    \<lparr>config = cfg, graph = newTokenGraph, opportunities = [], opportunityHistory = [],
     onOpportunityCallbacks = []\<rparr>"


text \<open>\<open>passesFilters(buyQuote, sellQuote, spreadBps)\<close>.\<close>

definition passesFilters :: "DetectorConfig \<Rightarrow> PriceQuote \<Rightarrow> PriceQuote \<Rightarrow> real \<Rightarrow> bool" where
  "passesFilters cfg buyQ sellQ spread =
    (if spread < minProfitBps cfg then False
     else if priceImpact buyQ > maxSlippageBps cfg / 100
             \<or> priceImpact sellQ > maxSlippageBps cfg / 100 then False
     else if (liquidity buyQ > 0 \<and> liquidity buyQ < minLiquidityUsd cfg)
             \<or> (liquidity sellQ > 0 \<and> liquidity sellQ < minLiquidityUsd cfg) then False
     else True)"

text \<open>\<open>notifyCallbacks(opp)\<close>: each callback runs inside its own \<open>try\<close>; a thrown error
  is logged and the loop goes on.\<close>

fun notifyCallbacks :: "'w Callback list \<Rightarrow> Opportunity \<Rightarrow> 'w \<times> LogEntry list \<Rightarrow> 'w \<times> LogEntry list" where
  "notifyCallbacks [] opp (w, lg) = (w, lg)"
| "notifyCallbacks (callback # rest) opp (w, lg) =
    (case callback opp w of
       (Inr _, w') \<Rightarrow> notifyCallbacks rest opp (w', lg)
     | (Inl e, w') \<Rightarrow> notifyCallbacks rest opp (w', lg @ [LogError ''Callback error'' e]))"

text \<open>The emission block shared by both scans: \<open>opportunities.set\<close>,
  \<open>opportunityHistory.push\<close>, \<open>logOpportunity\<close>, \<open>notifyCallbacks\<close>.\<close>

definition emitOpportunity ::
  "string \<Rightarrow> Opportunity \<Rightarrow> 'w Detector \<times> 'w \<times> LogEntry list
     \<Rightarrow> 'w Detector \<times> 'w \<times> LogEntry list" where
  "emitOpportunity token opp s =
    (case s of (d, w, lg) \<Rightarrow>
      let d' = d\<lparr>opportunities := AList.update (opp_id opp) opp (opportunities d),
                 opportunityHistory := opportunityHistory d @ [opp]\<rparr>;
          lg' = lg @ [LogOpportunity (buyDex opp) (sellDex opp) token (spreadBps opp)
                        (estimatedProfitUsd opp)];
          (w', lg'') = notifyCallbacks (onOpportunityCallbacks d') opp (w, lg')
      in (d', w', lg''))"

text \<open>
  What a scan reads from outside: the id generator \<open>uuidv4\<close> and the clock. The
  \<open>k\<close>-th opportunity emitted by a scan gets the id \<open>uuidv4 k\<close>; the object literal reads
  the clock twice, \<open>clockDetected k\<close> for \<open>detectedAt\<close> and \<open>clockExpiry k\<close> for \<open>expiresAt\<close>.
\<close>

record ScanEnv =
  uuidv4 :: "nat \<Rightarrow> string"
  clockDetected :: "nat \<Rightarrow> int"
  clockExpiry :: "nat \<Rightarrow> int"

subsection \<open>Pairwise scan\<close>

text \<open>\<open>estimatedProfitBps\<close> divides by \<open>tradeSizeUsd\<close>; where the literal is built the
  net profit is positive, so \<open>tradeSizeUsd\<close> is zero only for a zero \<open>amount\<close> with a
  negative SOL price.\<close>

definition pairOpportunity ::
  "DetectorConfig \<Rightarrow> ScanEnv \<Rightarrow> nat \<Rightarrow> string \<Rightarrow> real \<Rightarrow> real \<Rightarrow> Candidate \<Rightarrow> Opportunity" where
  "pairOpportunity cfg env k token amount solPrice c =
    (let gasEstimate = 0.001;
         gasCostUsd = gasEstimate * solPrice;
         tradeSizeUsd' = amount * solPrice;
         grossProfitUsd = (c_spreadBps c / 10000) * tradeSizeUsd';
         netProfitUsd = grossProfitUsd - gasCostUsd
     in \<lparr>opp_id = uuidv4 env k, tokenMint = token, tokenSymbol = ''UNK'',
         isTriangular = False, opp_path = None,
         buyDex = c_buyDex c, buyPrice = 1 / price (c_buyQuote c),
         buyQuote = Some (c_buyQuote c),
         sellDex = c_sellDex c, sellPrice = price (c_sellQuote c),
         sellQuote = Some (c_sellQuote c),
         spreadBps = c_spreadBps c,
         estimatedProfitBps = c_spreadBps c - (gasCostUsd / tradeSizeUsd' * 10000),
         estimatedProfitUsd = netProfitUsd,
         tradeSize = amount, tradeSizeUsd = tradeSizeUsd',
         detectedAt = clockDetected env k,
         expiresAt = clockExpiry env k + opportunityTtlMs cfg\<rparr>)"

text \<open>The two tests of the loop body of \<open>scanToken\<close> that can skip a candidate.\<close>

definition admitsPair :: "DetectorConfig \<Rightarrow> real \<Rightarrow> real \<Rightarrow> Candidate \<Rightarrow> bool" where
  "admitsPair cfg amount solPrice c =
    (if \<not> passesFilters cfg (c_buyQuote c) (c_sellQuote c) (c_spreadBps c) then False
     else if (c_spreadBps c / 10000) * (amount * solPrice) - 0.001 * solPrice \<le> 0 then False
     else True)"

fun scanTokenLoop ::
  "ScanEnv \<Rightarrow> string \<Rightarrow> real \<Rightarrow> real \<Rightarrow> Candidate list
     \<Rightarrow> Opportunity list \<times> 'w Detector \<times> 'w \<times> LogEntry list
     \<Rightarrow> Opportunity list \<times> 'w Detector \<times> 'w \<times> LogEntry list" where
  "scanTokenLoop env token amount solPrice [] s = s"
| "scanTokenLoop env token amount solPrice (c # cs) (found, d, w, lg) =
    (if \<not> admitsPair (config d) amount solPrice c
     then scanTokenLoop env token amount solPrice cs (found, d, w, lg)
     else let opp = pairOpportunity (config d) env (length found) token amount solPrice c
          in scanTokenLoop env token amount solPrice cs
               (found @ [opp], emitOpportunity token opp (d, w, lg)))"


subsection \<open>Cyclic scan\<close>

definition admitsTriangle :: "DetectorConfig \<Rightarrow> real \<Rightarrow> real \<Rightarrow> Triangle \<Rightarrow> bool" where
  "admitsTriangle cfg amount solPrice tri =
    (if profitBps tri < minProfitBps cfg then False
     else if (profitBps tri / 10000) * (amount * solPrice) - 0.003 * solPrice \<le> 0 then False
     else True)"

definition legOf :: "Edge \<Rightarrow> PathLeg" where
  "legOf e = \<lparr>leg_from = [], leg_to = edge_to e, leg_dex = edge_dex e, leg_quote = edge_quote e\<rparr>"

text \<open>The block \<open>Fix 'from' addresses\<close>, which applies to a path of length 3.\<close>

definition fixFrom :: "PathLeg list \<Rightarrow> PathLeg list" where
  "fixFrom legs =
    (case legs of
       [l0, l1, l2] \<Rightarrow>
         [l0\<lparr>leg_from := SOL\<rparr>, l1\<lparr>leg_from := leg_to l0\<rparr>, l2\<lparr>leg_from := leg_to l1\<rparr>]
     | _ \<Rightarrow> legs)"

text \<open>The object literal of \<open>scanGraph\<close>. It reads \<open>tri.path[0]\<close> and \<open>tri.path[2]\<close>; on a
  path shorter than three edges the property access on \<open>undefined\<close> throws a
  \<open>TypeError\<close>, the result \<open>None\<close>.\<close>

definition triOpportunity ::
  "DetectorConfig \<Rightarrow> ScanEnv \<Rightarrow> nat \<Rightarrow> real \<Rightarrow> real \<Rightarrow> Triangle \<Rightarrow> Opportunity option" where
  "triOpportunity cfg env k amount solPrice tri =
    (case path tri of
       e0 # e1 # e2 # rest \<Rightarrow>
         (let gasEstimateUsd = 0.003 * solPrice;
              tradeSizeUsd' = amount * solPrice;
              grossProfitUsd = (profitBps tri / 10000) * tradeSizeUsd';
              netProfitUsd = grossProfitUsd - gasEstimateUsd
          in Some \<lparr>opp_id = uuidv4 env k, tokenMint = SOL, tokenSymbol = ''SOL-TRI'',
               isTriangular = True, opp_path = Some (fixFrom (map legOf (path tri))),
               buyDex = edge_dex e0, buyPrice = edge_price e0, buyQuote = edge_quote e0,
               sellDex = edge_dex e2, sellPrice = edge_price e2, sellQuote = edge_quote e2,
               spreadBps = profitBps tri,
               estimatedProfitBps = profitBps tri,
               estimatedProfitUsd = netProfitUsd,
               tradeSize = amount, tradeSizeUsd = tradeSizeUsd',
               detectedAt = clockDetected env k,
               expiresAt = clockExpiry env k + opportunityTtlMs cfg\<rparr>)
     | _ \<Rightarrow> None)"

text \<open>The loop over the triangles. A thrown error leaves the loop through the \<open>catch\<close> of
  \<open>scanGraph\<close>, which logs it; what was found so far is returned.\<close>

fun scanGraphLoop ::
  "ScanEnv \<Rightarrow> real \<Rightarrow> real \<Rightarrow> Triangle list
     \<Rightarrow> Opportunity list \<times> 'w Detector \<times> 'w \<times> LogEntry list
     \<Rightarrow> Opportunity list \<times> 'w Detector \<times> 'w \<times> LogEntry list" where
  "scanGraphLoop env amount solPrice [] s = s"
| "scanGraphLoop env amount solPrice (tri # tris) (found, d, w, lg) =
    (if \<not> admitsTriangle (config d) amount solPrice tri
     then scanGraphLoop env amount solPrice tris (found, d, w, lg)
     else case triOpportunity (config d) env (length found) amount solPrice tri of
            None \<Rightarrow>
              (found, d, w,
               lg @ [LogError ''Graph scan failed''
                       ''Cannot read properties of undefined''])
          | Some opp \<Rightarrow>
              scanGraphLoop env amount solPrice tris
                (found @ [opp], emitOpportunity ''TRI-ARB'' opp (d, w, lg)))"

text \<open>\<open>scanGraph\<close> after its awaits: \<open>quotes\<close> is the result of \<open>getAllPairQuotes\<close>,
  \<open>solPriceRaw\<close> that of \<open>getSolPrice\<close>, replaced by 20 when it is zero.\<close>

definition scanGraph ::
  "ScanEnv \<Rightarrow> real \<Rightarrow> PriceQuote list \<Rightarrow> real \<Rightarrow> 'w Detector \<times> 'w \<times> LogEntry list
     \<Rightarrow> Opportunity list \<times> 'w Detector \<times> 'w \<times> LogEntry list" where
  "scanGraph env amount quotes solPriceRaw s =
    (case s of (d, w, lg) \<Rightarrow>
      let g = fold (\<lambda>q g. updateEdge g (inputMint q) (outputMint q) (dex q) (price q) (Some q))
                quotes (graph d);
          d1 = d\<lparr>graph := g\<rparr>;
          triangles = findTriangles g SOL;
          solPrice = (if solPriceRaw = 0 then 20 else solPriceRaw)
      in scanGraphLoop env amount solPrice triangles ([], d1, w, lg))"

subsection \<open>Queries\<close>

text \<open>\<open>getActiveOpportunities()\<close>: the loop over the entries of the map, which deletes
  the entry it is visiting when that one has expired. \<open>now\<close> is the clock reading.\<close>

fun activeLoop ::
  "int \<Rightarrow> (string \<times> Opportunity) list \<Rightarrow> Opportunity list \<times> (string \<times> Opportunity) list
     \<Rightarrow> Opportunity list \<times> (string \<times> Opportunity) list" where
  "activeLoop now [] s = s"
| "activeLoop now ((k, opp) # rest) (active, m) =
    (if expiresAt opp > now then activeLoop now rest (active @ [opp], m)
     else activeLoop now rest (active, AList.delete k m))"

definition getActiveOpportunities :: "int \<Rightarrow> 'w Detector \<Rightarrow> Opportunity list \<times> 'w Detector" where
  "getActiveOpportunities now d =
    (case activeLoop now (opportunities d) ([], opportunities d) of
       (active, m) \<Rightarrow> (active, d\<lparr>opportunities := m\<rparr>))"

definition getOpportunity :: "string \<Rightarrow> 'w Detector \<Rightarrow> Opportunity option" where
  "getOpportunity k d = map_of (opportunities d) k"

text \<open>\<open>Array.prototype.slice(start)\<close> for an integer \<open>start\<close>: a negative \<open>start\<close> counts
  from the end and is clamped at 0, another one is clamped at the length.\<close>

definition slice_from :: "int \<Rightarrow> 'a list \<Rightarrow> 'a list" where
  "slice_from start xs =
    (let len = int (length xs);
         k = (if start < 0 then max (len + start) 0 else min start len)
     in drop (nat k) xs)"

text \<open>\<open>getHistory(limit)\<close> for an integer \<open>limit\<close>; \<open>-limit\<close> of \<open>limit = 0\<close> is \<open>-0\<close>, which
  \<open>slice\<close> reads as 0.\<close>

definition getHistory :: "int \<Rightarrow> 'w Detector \<Rightarrow> Opportunity list" where
  "getHistory limit d = slice_from (- limit) (opportunityHistory d)"

section \<open>Risk manager\<close>

text \<open>\<open>interface RiskLimits\<close>; three fields carry the prefix \<open>limit_\<close> because the
  detector's configuration has fields of the same names.\<close>

record RiskLimits =
  maxTradeSizeSol :: real
  limit_maxSlippageBps :: real
  limit_minLiquidityUsd :: real
  maxPriceImpactBps :: real
  limit_minProfitBps :: real
  maxGasLamports :: real
  maxPositionPercent :: real
  dailyLossLimitUsd :: real

text \<open>
  The rejection reasons and the warnings are template strings. Each constructor stands
  for one template and carries the numbers the template prints (\<open>toFixed\<close> rounds them
  for display): \<open>DailyLossLimitReached x\<close> is
  \<open>Daily loss limit reached: $\<close> followed by \<open>x\<close>, where \<open>x\<close> is \<open>Math.abs(dailyPnL)\<close>.
\<close>

datatype Reason =
  DailyLossLimitReached real
| SpreadBelowMinimum real real
| TradeSizeTooSmall
| BuyPriceImpactExceeds real
| SellPriceImpactExceeds real
| CombinedSlippageTooHigh real
| BuyPoolLiquidityBelowMinimum real
| SellPoolLiquidityBelowMinimum real

datatype Warning =
  TradeSizeCappedToMax real
| TradeSizeReducedToPercent real
| NotableSlippage real
| ProfitMarginTight
| OpportunityMayBeStale int

record RiskCheckResult =
  passed :: bool
  reason :: "Reason option"
  adjustedSize :: "real option"
  warnings :: "Warning list"

record RiskManager =
  limits :: RiskLimits
  dailyPnL :: real
  dailyStartTime :: int
  tradeCount :: nat
  failedTrades :: nat

definition newRiskManager :: "RiskLimits \<Rightarrow> int \<Rightarrow> RiskManager" where
  "newRiskManager lims now =
    \<lparr>limits = lims, dailyPnL = 0, dailyStartTime = now, tradeCount = 0, failedTrades = 0\<rparr>"

definition dayMs :: int where
  "dayMs = 24 * 60 * 60 * 1000"

definition checkDailyReset :: "int \<Rightarrow> RiskManager \<Rightarrow> RiskManager" where
  "checkDailyReset now r =
    (if now - dailyStartTime r > dayMs
     then r\<lparr>dailyPnL := 0, dailyStartTime := now, tradeCount := 0, failedTrades := 0\<rparr>
     else r)"

definition recordTrade :: "real \<Rightarrow> bool \<Rightarrow> RiskManager \<Rightarrow> RiskManager" where
  "recordTrade profitUsd ok r =
    (let r1 = r\<lparr>tradeCount := tradeCount r + 1\<rparr>
     in if ok then r1\<lparr>dailyPnL := dailyPnL r1 + profitUsd\<rparr>
        else r1\<lparr>failedTrades := failedTrades r1 + 1\<rparr>)"

text \<open>The size-clamp step of \<open>checkTrade\<close>: the two successive caps and the warning each
  one pushes.\<close>

definition clampSize :: "RiskLimits \<Rightarrow> real \<Rightarrow> real \<Rightarrow> real \<times> Warning list" where
  "clampSize lims size0 walletBalanceSol =
    (let maxByBalance = walletBalanceSol * (maxPositionPercent lims / 100);
         (size1, ws1) =
           (if size0 > maxTradeSizeSol lims
            then (maxTradeSizeSol lims, [TradeSizeCappedToMax (maxTradeSizeSol lims)])
            else (size0, []))
     in if size1 > maxByBalance
        then (maxByBalance, ws1 @ [TradeSizeReducedToPercent (maxPositionPercent lims)])
        else (size1, ws1))"

definition reject :: "Reason \<Rightarrow> Warning list \<Rightarrow> RiskCheckResult" where
  "reject why ws = \<lparr>passed = False, reason = Some why, adjustedSize = None, warnings = ws\<rparr>"

text \<open>The checks of \<open>checkTrade\<close> that follow the size clamp, for the quotes of both legs.
  \<open>nowAge\<close> is the clock reading of the freshness check.\<close>

definition checkLegs ::
  "RiskLimits \<Rightarrow> Opportunity \<Rightarrow> PriceQuote \<Rightarrow> PriceQuote \<Rightarrow> int \<Rightarrow> real \<Rightarrow> Warning list
     \<Rightarrow> RiskCheckResult" where
  "checkLegs lims opp buyQ sellQ nowAge sz ws =
    (let buyImpact = priceImpact buyQ * 100;
         sellImpact = priceImpact sellQ * 100;
         totalSlippage = buyImpact + sellImpact
     in if buyImpact > maxPriceImpactBps lims then reject (BuyPriceImpactExceeds buyImpact) ws
        else if sellImpact > maxPriceImpactBps lims
          then reject (SellPriceImpactExceeds sellImpact) ws
        else if totalSlippage > limit_maxSlippageBps lims
          then reject (CombinedSlippageTooHigh totalSlippage) ws
        else
          let ws1 = (if totalSlippage > limit_maxSlippageBps lims / 2
                     then ws @ [NotableSlippage totalSlippage] else ws)
          in if liquidity buyQ > 0 \<and> liquidity buyQ < limit_minLiquidityUsd lims
             then reject (BuyPoolLiquidityBelowMinimum (liquidity buyQ)) ws1
             else if liquidity sellQ > 0 \<and> liquidity sellQ < limit_minLiquidityUsd lims
             then reject (SellPoolLiquidityBelowMinimum (liquidity sellQ)) ws1
             else
               let expectedGasCost = 0.002;
                   ws2 = (if tradeSize opp * (spreadBps opp / 10000) < expectedGasCost * 2
                          then ws1 @ [ProfitMarginTight] else ws1);
                   age = nowAge - detectedAt opp;
                   ws3 = (if age > 2000 then ws2 @ [OpportunityMayBeStale age] else ws2)
               in \<lparr>passed = True, reason = None, adjustedSize = Some sz, warnings = ws3\<rparr>)"

text \<open>
  \<open>checkTrade(opportunity, walletBalanceSol)\<close>. \<open>nowReset\<close> is the clock reading of
  \<open>checkDailyReset\<close>. The result is the returned record, or \<open>Inl\<close> the message of the
  \<open>TypeError\<close> thrown by \<open>opportunity.buyQuote.priceImpact\<close> on an opportunity without
  quotes; the ledger is returned with it, since the daily reset has happened by then.
\<close>

definition checkTrade ::
  "Opportunity \<Rightarrow> real \<Rightarrow> int \<Rightarrow> int \<Rightarrow> RiskManager \<Rightarrow> (string + RiskCheckResult) \<times> RiskManager" where
  "checkTrade opp walletBalanceSol nowReset nowAge r0 =
    (let r = checkDailyReset nowReset r0; lims = limits r
     in if dailyPnL r < - dailyLossLimitUsd lims
        then (Inr (reject (DailyLossLimitReached \<bar>dailyPnL r\<bar>) []), r)
        else if spreadBps opp < limit_minProfitBps lims
        then (Inr (reject (SpreadBelowMinimum (spreadBps opp) (limit_minProfitBps lims)) []), r)
        else
          case clampSize lims (tradeSize opp) walletBalanceSol of
            (sz, ws) \<Rightarrow>
              if sz < 0.01 then (Inr (reject TradeSizeTooSmall ws), r)
              else case (buyQuote opp, sellQuote opp) of
                     (Some buyQ, Some sellQ) \<Rightarrow>
                       (Inr (checkLegs lims opp buyQ sellQ nowAge sz ws), r)
                   | _ \<Rightarrow> (Inl ''Cannot read properties of undefined'', r))"

section \<open>Trade executor\<close>





















section \<open>Specification-level functions\<close>

text \<open>What each callback of a list does when all of them are run in order, each on the
  world its predecessor left behind, whatever the predecessors did: the outcome of
  every callback, and the messages of those that threw.\<close>

fun callbackOutcomes :: "'w Callback list \<Rightarrow> Opportunity \<Rightarrow> 'w \<Rightarrow> (string + unit) list" where
  "callbackOutcomes [] opp w = []"
| "callbackOutcomes (callback # rest) opp w =
    fst (callback opp w) # callbackOutcomes rest opp (snd (callback opp w))"

fun thrownMessages :: "(string + unit) list \<Rightarrow> string list" where
  "thrownMessages [] = []"
| "thrownMessages (Inl e # rs) = e # thrownMessages rs"
| "thrownMessages (Inr u # rs) = thrownMessages rs"

definition runAllCallbacks :: "'w Callback list \<Rightarrow> Opportunity \<Rightarrow> 'w \<Rightarrow> 'w" where
  "runAllCallbacks callbacks opp w = fold (\<lambda>callback w. snd (callback opp w)) callbacks w"

text \<open>What the emission of a list of opportunities, one after the other, writes to
  the log: for each one the entry of \<open>logOpportunity\<close> and one error entry for every
  callback that threw on it.\<close>

fun emissionLog ::
  "string \<Rightarrow> 'w Callback list \<Rightarrow> Opportunity list \<Rightarrow> 'w \<Rightarrow> LogEntry list" where
  "emissionLog token callbacks [] w = []"
| "emissionLog token callbacks (opp # opps) w =
    LogOpportunity (buyDex opp) (sellDex opp) token (spreadBps opp) (estimatedProfitUsd opp)
    # map (LogError ''Callback error'') (thrownMessages (callbackOutcomes callbacks opp w))
    @ emissionLog token callbacks opps (runAllCallbacks callbacks opp w)"

text \<open>The active map after \<open>opportunities.set(opp.id, opp)\<close> for each opportunity of a
  list in turn.\<close>

definition storeAll ::
  "Opportunity list \<Rightarrow> (string \<times> Opportunity) list \<Rightarrow> (string \<times> Opportunity) list" where
  "storeAll opps m = fold (\<lambda>opp. AList.update (opp_id opp) opp) opps m"

section \<open>Example values\<close>

text \<open>The two quotes of the specification's example (a buy price of 0.015 and a sell
  price of 70), an opportunity on them and a detector that stores it.\<close>

definition USDC :: string where
  "USDC = ''EPjFWdd5AufqSSqeM2qN1xzybapC8G4wEGGkZwyTDt1v''"

definition buyQuoteEx :: PriceQuote where
  "buyQuoteEx =
    \<lparr>dex = ''raydium'', inputMint = USDC, outputMint = SOL, inputAmount = 100,
     outputAmount = 1.5, price = 0.015, priceImpact = 0, fees = 0.001, liquidity = 1000000,
     route = Some [''USDC'', ''SOL''], timestamp = 1000\<rparr>"

definition sellQuoteEx :: PriceQuote where
  "sellQuoteEx =
    \<lparr>dex = ''jupiter'', inputMint = SOL, outputMint = USDC, inputAmount = 1.5,
     outputAmount = 105, price = 70, priceImpact = 0, fees = 0.001, liquidity = 1000000,
     route = Some [''SOL'', ''USDC''], timestamp = 1000\<rparr>"

definition oppEx :: Opportunity where
  "oppEx =
    \<lparr>opp_id = ''opp-1'', tokenMint = SOL, tokenSymbol = ''SOL'', isTriangular = False,
     opp_path = None,
     buyDex = ''raydium'', buyPrice = 0.015, buyQuote = Some buyQuoteEx,
     sellDex = ''jupiter'', sellPrice = 70, sellQuote = Some sellQuoteEx,
     spreadBps = 500, estimatedProfitBps = 500, estimatedProfitUsd = 5,
     tradeSize = 8, tradeSizeUsd = 100, detectedAt = 1000, expiresAt = 6000\<rparr>"

definition cfgEx :: DetectorConfig where
  "cfgEx = \<lparr>minProfitBps = 50, maxSlippageBps = 100, minLiquidityUsd = 10000,
            opportunityTtlMs = 5000\<rparr>"

definition detectorEx :: "unit Detector" where
  "detectorEx = (newDetector cfgEx)\<lparr>opportunities := [(''opp-1'', oppEx)],
                                    opportunityHistory := [oppEx]\<rparr>"





text \<open>A scan environment, and three quotes around the triangle SOL, USDC, USDT with the
  rates 1.01, 1.02 and 1.00. The first quote reports a price impact of 5 (percent) and a
  liquidity of 100 USD.\<close>

definition USDT :: string where
  "USDT = ''Es9vMFrzaCERmJfrF4H2FYD4KCoNkY11McCe8BenwNYB''"

definition envEx :: ScanEnv where
  "envEx = \<lparr>uuidv4 = (\<lambda>k. ''opp-'' @ replicate k (CHR ''i'')),
            clockDetected = (\<lambda>k. 1000), clockExpiry = (\<lambda>k. 1000)\<rparr>"

definition legQuote1 :: PriceQuote where
  "legQuote1 =
    \<lparr>dex = ''jupiter'', inputMint = SOL, outputMint = USDC, inputAmount = 1,
     outputAmount = 1.01, price = 1.01, priceImpact = 5, fees = 0, liquidity = 100,
     route = None, timestamp = 1000\<rparr>"

definition legQuote2 :: PriceQuote where
  "legQuote2 =
    \<lparr>dex = ''raydium'', inputMint = USDC, outputMint = USDT, inputAmount = 1,
     outputAmount = 1.02, price = 1.02, priceImpact = 0, fees = 0, liquidity = 1000000,
     route = None, timestamp = 1000\<rparr>"

definition legQuote3 :: PriceQuote where
  "legQuote3 =
    \<lparr>dex = ''orca'', inputMint = USDT, outputMint = SOL, inputAmount = 1,
     outputAmount = 1, price = 1, priceImpact = 0, fees = 0, liquidity = 1000000,
     route = None, timestamp = 1000\<rparr>"

definition scannedGraph :: TokenGraph where
  "scannedGraph =
     fold (\<lambda>q g. updateEdge g (inputMint q) (outputMint q) (dex q) (price q) (Some q))
       [legQuote1, legQuote2, legQuote3] newTokenGraph"

text \<open>The limits of the specification's clamp example (a maximum trade size of 1, a
  maximum position of 50 percent, a daily loss limit of 50 USD) and a risk manager
  created at time 0.\<close>

definition limitsEx :: RiskLimits where
  "limitsEx =
    \<lparr>maxTradeSizeSol = 1, limit_maxSlippageBps = 100, limit_minLiquidityUsd = 10000,
     maxPriceImpactBps = 200, limit_minProfitBps = 50, maxGasLamports = 100000,
     maxPositionPercent = 50, dailyLossLimitUsd = 50\<rparr>"

definition riskEx :: RiskManager where
  "riskEx = newRiskManager limitsEx 0"





text \<open>The example of the specification: rates 1.01, 1.02 and 1.00 around a triangle
  that starts and ends at SOL.\<close>

definition edgeA :: Edge where
  "edgeA = \<lparr>edge_to = ''A'', edge_dex = ''jupiter'', edge_price = 1.01, edge_quote = None\<rparr>"

definition edgeB :: Edge where
  "edgeB = \<lparr>edge_to = ''B'', edge_dex = ''raydium'', edge_price = 1.02, edge_quote = None\<rparr>"

definition edgeC :: Edge where
  "edgeC = \<lparr>edge_to = SOL, edge_dex = ''orca'', edge_price = 1, edge_quote = None\<rparr>"

definition triGraph :: TokenGraph where
  "triGraph =
     updateEdge (updateEdge (updateEdge newTokenGraph SOL ''A'' ''jupiter'' 1.01 None)
       ''A'' ''B'' ''raydium'' 1.02 None) ''B'' SOL ''orca'' 1 None"

section \<open>Properties of the rate graph\<close>

subsection \<open>\<open>findIndex\<close>\<close>

lemma findIndex_None: "findIndex P xs = None \<longleftrightarrow> (\<forall>x\<in>set xs. \<not> P x)"
  by (induction xs) auto

lemma findIndex_Some:
  "findIndex P xs = Some i \<Longrightarrow> i < length xs \<and> P (xs ! i) \<and> (\<forall>j<i. \<not> P (xs ! j))"
proof (induction xs arbitrary: i)
  case Nil
  then show ?case by simp
next
  case (Cons x xs)
  show ?case
  proof (cases "P x")
    case True
    with Cons.prems show ?thesis by simp
  next
    case False
    with Cons.prems obtain k where k: "findIndex P xs = Some k" "i = Suc k" by auto
    from Cons.IH[OF k(1)] False k(2) show ?thesis
      by (auto simp: less_Suc_eq_0_disj)
  qed
qed

lemma findIndex_update_same:
  "findIndex P xs = Some i \<Longrightarrow> P y \<Longrightarrow> findIndex P (xs[i := y]) = Some i"
  by (induction xs arbitrary: i) (auto split: if_splits)

lemma findIndex_append_new:
  "findIndex P xs = None \<Longrightarrow> P y \<Longrightarrow> findIndex P (xs @ [y]) = Some (length xs)"
  by (induction xs) (auto split: if_splits)

subsection \<open>\<open>updateEdge\<close>\<close>

lemma sameKey_edgeKey: "sameKey t d e \<longleftrightarrow> edgeKey e = (t, d)"
  by (auto simp: sameKey_def edgeKey_def)

lemma keys_update_in_place:
  assumes "findIndex (sameKey t d) es = Some i" "edgeKey e = (t, d)"
  shows "map edgeKey (es[i := e]) = map edgeKey es"
proof -
  from findIndex_Some[OF assms(1)] have "i < length es" "edgeKey (es ! i) = (t, d)"
    by (auto simp: sameKey_edgeKey)
  then show ?thesis using assms(2)
    by (simp add: map_update list_update_same_conv)
qed

lemma getNeighbors_updateEdge_other:
  "f' \<noteq> f \<Longrightarrow> getNeighbors (updateEdge g f t d p q) f' = getNeighbors g f'"
  by (simp add: getNeighbors_def updateEdge_def Let_def split: option.splits)

lemma getNeighbors_updateEdge_same:
  "getNeighbors (updateEdge g f t d p q) f =
     (case findIndex (sameKey t d) (getNeighbors g f) of
        Some i \<Rightarrow>
          (getNeighbors g f)[i := \<lparr>edge_to = t, edge_dex = d, edge_price = p, edge_quote = q\<rparr>]
      | None \<Rightarrow>
          getNeighbors g f @ [\<lparr>edge_to = t, edge_dex = d, edge_price = p, edge_quote = q\<rparr>])"
  by (simp add: getNeighbors_def updateEdge_def Let_def split: option.splits)

lemma updateEdge_other: "f' \<noteq> f \<Longrightarrow> updateEdge g f t d p q f' = g f'"
  by (simp add: updateEdge_def Let_def split: option.splits)

lemma updateEdge_Some:
  "updateEdge g f t d p q f = Some (getNeighbors (updateEdge g f t d p q) f)"
  by (simp add: getNeighbors_def updateEdge_def Let_def split: option.splits)

lemma uniqueEdges_getNeighbors:
  "uniqueEdges g \<longleftrightarrow> (\<forall>f. distinct (map edgeKey (getNeighbors g f)))"
  by (auto simp: uniqueEdges_def getNeighbors_def split: option.splits)

lemma updateEdge_unique:
  assumes "uniqueEdges g"
  shows "uniqueEdges (updateEdge g f t d p q)"
  unfolding uniqueEdges_getNeighbors
proof
  fix f'
  let ?e = "\<lparr>edge_to = t, edge_dex = d, edge_price = p, edge_quote = q\<rparr>"
  have ke: "edgeKey ?e = (t, d)" by (simp add: edgeKey_def)
  from assms have old: "distinct (map edgeKey (getNeighbors g f'))" for f'
    by (simp add: uniqueEdges_getNeighbors)
  show "distinct (map edgeKey (getNeighbors (updateEdge g f t d p q) f'))"
  proof (cases "f' = f")
    case False
    then show ?thesis using old by (simp add: getNeighbors_updateEdge_other)
  next
    case True
    show ?thesis
    proof (cases "findIndex (sameKey t d) (getNeighbors g f)")
      case None
      then have "(t, d) \<notin> set (map edgeKey (getNeighbors g f))"
        by (auto simp: findIndex_None sameKey_edgeKey)
      then show ?thesis using True None old[of f] ke
        by (simp add: getNeighbors_updateEdge_same)
    next
      case (Some i)
      then show ?thesis using True old[of f] keys_update_in_place[OF Some ke]
        by (simp add: getNeighbors_updateEdge_same)
    qed
  qed
qed

lemma newTokenGraph_unique: "uniqueEdges newTokenGraph"
  by (simp add: uniqueEdges_def newTokenGraph_def TOKENS_def split: if_splits)

lemma updateEdge_idem:
  "updateEdge (updateEdge g f t d p q) f t d p q = updateEdge g f t d p q"
proof
  fix f'
  let ?e = "\<lparr>edge_to = t, edge_dex = d, edge_price = p, edge_quote = q\<rparr>"
  have sk: "sameKey t d ?e" by (simp add: sameKey_def)
  let ?g = "updateEdge g f t d p q"
  show "updateEdge ?g f t d p q f' = ?g f'"
  proof (cases "f' = f")
    case False
    then show ?thesis by (simp add: updateEdge_other)
  next
    case True
    have "getNeighbors (updateEdge ?g f t d p q) f = getNeighbors ?g f"
    proof (cases "findIndex (sameKey t d) (getNeighbors g f)")
      case None
      from findIndex_append_new[OF None sk] None show ?thesis
        by (simp add: getNeighbors_updateEdge_same)
    next
      case (Some i)
      from findIndex_update_same[OF Some sk] Some show ?thesis
        by (simp add: getNeighbors_updateEdge_same)
    qed
    then show ?thesis
      using True updateEdge_Some[of ?g f t d p q] updateEdge_Some[of g f t d p q] by simp
  qed
qed

lemma fold_applyUpdate_unique:
  "uniqueEdges g \<Longrightarrow> uniqueEdges (fold (\<lambda>u g. applyUpdate g u) us g)"
  by (induction us arbitrary: g) (auto simp: applyUpdate_def updateEdge_unique)

lemma updateEdge_replaces:
  assumes "findIndex (sameKey t d) (getNeighbors g f) = Some i"
  shows "map edgeKey (getNeighbors (updateEdge g f t d p q) f) = map edgeKey (getNeighbors g f)"
    and "getNeighbors (updateEdge g f t d p q) f ! i =
           \<lparr>edge_to = t, edge_dex = d, edge_price = p, edge_quote = q\<rparr>"
    and "j \<noteq> i \<Longrightarrow> getNeighbors (updateEdge g f t d p q) f ! j = getNeighbors g f ! j"
proof -
  let ?e = "\<lparr>edge_to = t, edge_dex = d, edge_price = p, edge_quote = q\<rparr>"
  have ke: "edgeKey ?e = (t, d)" by (simp add: edgeKey_def)
  have eq: "getNeighbors (updateEdge g f t d p q) f = (getNeighbors g f)[i := ?e]"
    using assms by (simp add: getNeighbors_updateEdge_same)
  show "map edgeKey (getNeighbors (updateEdge g f t d p q) f) = map edgeKey (getNeighbors g f)"
    using keys_update_in_place[OF assms ke] eq by simp
  from findIndex_Some[OF assms] have "i < length (getNeighbors g f)" by simp
  then show "getNeighbors (updateEdge g f t d p q) f ! i = ?e" using eq by simp
  show "j \<noteq> i \<Longrightarrow> getNeighbors (updateEdge g f t d p q) f ! j = getNeighbors g f ! j"
    using eq by simp
qed

text \<open>
  Claim C8. At most one edge exists per (from, to, venue): the graph of the constructor
  has the property, every \<open>updateEdge\<close> keeps it, hence every graph reached by a sequence
  of calls has it. A call whose key is present (at the index \<open>findIndex\<close> returns)
  replaces the edge at that index and leaves the keys and every other position as they
  were; a call whose key is absent appends the edge; the lists of other source tokens are
  untouched. Repeating a call with identical arguments changes nothing.
\<close>

theorem updateEdge_one_edge_per_key:
  "uniqueEdges (fold (\<lambda>u g. applyUpdate g u) us newTokenGraph)
   \<and> (uniqueEdges g \<longrightarrow> uniqueEdges (updateEdge g f t d p q))
   \<and> (\<forall>i. findIndex (sameKey t d) (getNeighbors g f) = Some i \<longrightarrow>
         map edgeKey (getNeighbors (updateEdge g f t d p q) f) = map edgeKey (getNeighbors g f)
         \<and> getNeighbors (updateEdge g f t d p q) f ! i =
             \<lparr>edge_to = t, edge_dex = d, edge_price = p, edge_quote = q\<rparr>
         \<and> (\<forall>j. j \<noteq> i \<longrightarrow>
               getNeighbors (updateEdge g f t d p q) f ! j = getNeighbors g f ! j))
   \<and> ((\<forall>e \<in> set (getNeighbors g f). edgeKey e \<noteq> (t, d)) \<longrightarrow>
         getNeighbors (updateEdge g f t d p q) f =
           getNeighbors g f @ [\<lparr>edge_to = t, edge_dex = d, edge_price = p, edge_quote = q\<rparr>])
   \<and> (\<forall>f'. f' \<noteq> f \<longrightarrow> getNeighbors (updateEdge g f t d p q) f' = getNeighbors g f')
   \<and> updateEdge (updateEdge g f t d p q) f t d p q = updateEdge g f t d p q"
proof (intro conjI allI impI)
  show "uniqueEdges (fold (\<lambda>u g. applyUpdate g u) us newTokenGraph)"
    by (rule fold_applyUpdate_unique[OF newTokenGraph_unique])
next
  assume "uniqueEdges g"
  then show "uniqueEdges (updateEdge g f t d p q)" by (rule updateEdge_unique)
next
  assume "\<forall>e \<in> set (getNeighbors g f). edgeKey e \<noteq> (t, d)"
  then have "findIndex (sameKey t d) (getNeighbors g f) = None"
    by (simp add: findIndex_None sameKey_edgeKey)
  then show "getNeighbors (updateEdge g f t d p q) f =
      getNeighbors g f @ [\<lparr>edge_to = t, edge_dex = d, edge_price = p, edge_quote = q\<rparr>]"
    by (simp add: getNeighbors_updateEdge_same)
next
  show "updateEdge (updateEdge g f t d p q) f t d p q = updateEdge g f t d p q"
    by (rule updateEdge_idem)
qed (simp_all add: updateEdge_replaces getNeighbors_updateEdge_other)

lemma newTokenGraph_SOL: "getNeighbors newTokenGraph SOL = []"
  by (simp add: getNeighbors_def newTokenGraph_def TOKENS_def)

theorem updateEdge_one_edge_per_key_witness:
  "uniqueEdges newTokenGraph
   \<and> uniqueEdges (updateEdge newTokenGraph SOL ''A'' ''jupiter'' 1.01 None)
   \<and> getNeighbors (updateEdge newTokenGraph SOL ''A'' ''jupiter'' 1.01 None) SOL = [edgeA]
   \<and> getNeighbors (updateEdge newTokenGraph SOL ''A'' ''jupiter'' 1.01 None) ''A'' = []
   \<and> updateEdge (updateEdge newTokenGraph SOL ''A'' ''jupiter'' 1.01 None)
        SOL ''A'' ''jupiter'' 1.01 None
      = updateEdge newTokenGraph SOL ''A'' ''jupiter'' 1.01 None"
proof -
  have a: "getNeighbors newTokenGraph ''A'' = []"
    by (simp add: getNeighbors_def newTokenGraph_def TOKENS_def SOL_def)
  have b: "''A'' \<noteq> SOL" by (simp add: SOL_def)
  show ?thesis
    using updateEdge_one_edge_per_key[of "[]" newTokenGraph SOL "''A''" "''jupiter''" "1.01" None]
      a b
    by (simp add: newTokenGraph_SOL edgeA_def)
qed

subsection \<open>\<open>findTriangles\<close>\<close>

lemma closeTriangle_iff:
  "t \<in> set (closeTriangle s e1 e2 e3) \<longleftrightarrow>
     edge_to e3 = s \<and> edge_price e1 * edge_price e2 * edge_price e3 > 1 \<and>
     t = \<lparr>path = [e1, e2, e3],
          profitBps = (edge_price e1 * edge_price e2 * edge_price e3 - 1) * 10000\<rparr>"
  by (auto simp: closeTriangle_def Let_def)

lemma triGraph_neighbors:
  "getNeighbors triGraph SOL = [edgeA]"
  "getNeighbors triGraph ''A'' = [edgeB]"
  "getNeighbors triGraph ''B'' = [edgeC]"
  by (simp_all add: triGraph_def getNeighbors_def updateEdge_def newTokenGraph_def TOKENS_def
        SOL_def sameKey_def edgeA_def edgeB_def edgeC_def)

text \<open>
  Claim C1. \<open>findTriangles(start)\<close> reports a triangle exactly for the paths
  \<open>e1, e2, e3\<close> with \<open>e1\<close> out of \<open>start\<close>, \<open>e2\<close> out of the destination of \<open>e1\<close> and not
  landing on \<open>start\<close>, \<open>e3\<close> out of the destination of \<open>e2\<close> and landing on \<open>start\<close>, whose
  composite rate \<open>r1 * r2 * r3\<close> is strictly greater than 1; the reported \<open>profitBps\<close> is
  \<open>(r1 * r2 * r3 - 1) * 10000\<close>.
\<close>

theorem findTriangles_iff:
  "t \<in> set (findTriangles g startToken) \<longleftrightarrow>
    (\<exists>e1 e2 e3.
       e1 \<in> set (getNeighbors g startToken) \<and>
       e2 \<in> set (getNeighbors g (edge_to e1)) \<and> edge_to e2 \<noteq> startToken \<and>
       e3 \<in> set (getNeighbors g (edge_to e2)) \<and> edge_to e3 = startToken \<and>
       edge_price e1 * edge_price e2 * edge_price e3 > 1 \<and>
       t = \<lparr>path = [e1, e2, e3],
            profitBps = (edge_price e1 * edge_price e2 * edge_price e3 - 1) * 10000\<rparr>)"
  unfolding findTriangles_def
  by (auto simp: closeTriangle_iff split: if_splits)

theorem findTriangles_iff_witness:
  "\<lparr>path = [edgeA, edgeB, edgeC], profitBps = 302\<rparr> \<in> set (findTriangles triGraph SOL)"
proof -
  have "\<exists>e1 e2 e3.
       e1 \<in> set (getNeighbors triGraph SOL) \<and>
       e2 \<in> set (getNeighbors triGraph (edge_to e1)) \<and> edge_to e2 \<noteq> SOL \<and>
       e3 \<in> set (getNeighbors triGraph (edge_to e2)) \<and> edge_to e3 = SOL \<and>
       edge_price e1 * edge_price e2 * edge_price e3 > 1 \<and>
       \<lparr>path = [edgeA, edgeB, edgeC], profitBps = 302\<rparr> =
         \<lparr>path = [e1, e2, e3],
          profitBps = (edge_price e1 * edge_price e2 * edge_price e3 - 1) * 10000\<rparr>"
    apply (rule exI[of _ edgeA], rule exI[of _ edgeB], rule exI[of _ edgeC])
    apply (simp add: triGraph_neighbors)
    apply (simp add: edgeA_def edgeB_def edgeC_def triGraph_neighbors SOL_def)
    done
  then show ?thesis
    using findTriangles_iff[of "\<lparr>path = [edgeA, edgeB, edgeC], profitBps = 302\<rparr>" triGraph SOL]
    by blast
qed

section \<open>Properties of the queries\<close>

subsection \<open>\<open>getActiveOpportunities\<close>\<close>

lemma activeLoop_fold:
  "activeLoop now es (active, m) =
     (active @ map snd (filter (\<lambda>e. expiresAt (snd e) > now) es),
      fold (\<lambda>e m. if expiresAt (snd e) > now then m else AList.delete (fst e) m) es m)"
  by (induction es arbitrary: active m) auto

lemma delete_as_filter: "AList.delete k m = filter (\<lambda>x. fst x \<noteq> k) m"
  by (induction m) auto

lemma fold_delete_filter:
  "fold (\<lambda>e m. if P e then m else AList.delete (fst e) m) es m =
     filter (\<lambda>x. \<forall>e \<in> set es. \<not> P e \<longrightarrow> fst x \<noteq> fst e) m"
proof (induction es arbitrary: m)
  case Nil
  then show ?case by simp
next
  case (Cons e es)
  show ?case
  proof (cases "P e")
    case True
    then show ?thesis using Cons.IH[of m] by simp
  next
    case False
    have "filter (\<lambda>x. \<forall>e \<in> set es. \<not> P e \<longrightarrow> fst x \<noteq> fst e) (filter (\<lambda>x. fst x \<noteq> fst e) m)
          = filter (\<lambda>x. \<forall>e' \<in> set (e # es). \<not> P e' \<longrightarrow> fst x \<noteq> fst e') m"
      unfolding filter_filter using False by (intro filter_cong[OF refl]) auto
    then show ?thesis using False Cons.IH[of "AList.delete (fst e) m"]
      by (simp add: delete_as_filter)
  qed
qed

lemma distinct_same_key:
  assumes "distinct (map fst es)" "x \<in> set es" "e \<in> set es" "fst e = fst x"
  shows "e = x"
proof -
  from assms(1) have "inj_on fst (set es)" by (simp add: distinct_map)
  then show ?thesis using assms(2-4) unfolding inj_on_def by blast
qed

lemma activeLoop_distinct:
  assumes "distinct (map fst es)"
  shows "activeLoop now es ([], es) =
     (map snd (filter (\<lambda>e. expiresAt (snd e) > now) es), filter (\<lambda>e. expiresAt (snd e) > now) es)"
proof -
  have *: "filter (\<lambda>x. \<forall>e \<in> set es. \<not> expiresAt (snd e) > now \<longrightarrow> fst x \<noteq> fst e) es
        = filter (\<lambda>e. expiresAt (snd e) > now) es"
  proof (rule filter_cong[OF refl])
    fix x assume x: "x \<in> set es"
    show "(\<forall>e \<in> set es. \<not> expiresAt (snd e) > now \<longrightarrow> fst x \<noteq> fst e) \<longleftrightarrow> expiresAt (snd x) > now"
    proof
      assume "\<forall>e \<in> set es. \<not> expiresAt (snd e) > now \<longrightarrow> fst x \<noteq> fst e"
      with x show "expiresAt (snd x) > now" by blast
    next
      assume a: "expiresAt (snd x) > now"
      show "\<forall>e \<in> set es. \<not> expiresAt (snd e) > now \<longrightarrow> fst x \<noteq> fst e"
      proof (intro ballI impI notI)
        fix e assume "e \<in> set es" "\<not> expiresAt (snd e) > now" "fst x = fst e"
        with distinct_same_key[OF assms x, of e] a show False by simp
      qed
    qed
  qed
  have "activeLoop now es ([], es) =
     (map snd (filter (\<lambda>e. expiresAt (snd e) > now) es),
      filter (\<lambda>x. \<forall>e \<in> set es. \<not> expiresAt (snd e) > now \<longrightarrow> fst x \<noteq> fst e) es)"
    unfolding activeLoop_fold fold_delete_filter by simp
  then show ?thesis unfolding * .
qed

lemma getActiveOpportunities_exact:
  assumes "distinct (map fst (opportunities d))"
  shows "getActiveOpportunities now d =
           (map snd (filter (\<lambda>e. expiresAt (snd e) > now) (opportunities d)),
            d\<lparr>opportunities := filter (\<lambda>e. expiresAt (snd e) > now) (opportunities d)\<rparr>)"
  unfolding getActiveOpportunities_def activeLoop_distinct[OF assms] by simp

lemma map_of_filter_distinct:
  assumes "distinct (map fst es)" "(k, v) \<in> set es"
  shows "map_of (filter P es) k = (if P (k, v) then Some v else None)"
proof (cases "P (k, v)")
  case True
  have "distinct (map fst (filter P es))" using assms(1) by (rule distinct_map_filter)
  moreover have "(k, v) \<in> set (filter P es)" using True assms(2) by simp
  ultimately show ?thesis using True by simp
next
  case False
  have "k \<notin> fst ` set (filter P es)"
  proof
    assume "k \<in> fst ` set (filter P es)"
    then obtain e where e: "e \<in> set es" "P e" "fst e = k" by auto
    from distinct_same_key[OF assms(1) assms(2) e(1)] e(3) have "e = (k, v)" by simp
    with e(2) False show False by simp
  qed
  then show ?thesis using False by (simp add: map_of_eq_None_iff)
qed

text \<open>
  Claim C6. On a map with distinct keys the active-set query returns exactly the stored
  opportunities with \<open>expiresAt > now\<close>, in insertion order, and leaves in the map
  exactly those entries: every expired entry is removed and no active one. An
  opportunity whose expiry is its detection time plus 5000 ms is returned and kept by a
  query at detection time + 4000 ms, and is neither returned nor kept by a query at
  detection time + 5001 ms.
\<close>

theorem getActiveOpportunities_lazy_expiry:
  assumes "distinct (map fst (opportunities d))"
  shows
    "fst (getActiveOpportunities now d) =
       map snd (filter (\<lambda>e. expiresAt (snd e) > now) (opportunities d))
     \<and> opportunities (snd (getActiveOpportunities now d)) =
         filter (\<lambda>e. expiresAt (snd e) > now) (opportunities d)
     \<and> (\<forall>k opp. (k, opp) \<in> set (opportunities d) \<longrightarrow>
           getOpportunity k (snd (getActiveOpportunities now d)) =
             (if expiresAt opp > now then Some opp else None))
     \<and> (\<forall>k opp. (k, opp) \<in> set (opportunities d) \<and> expiresAt opp = detectedAt opp + 5000 \<longrightarrow>
           opp \<in> set (fst (getActiveOpportunities (detectedAt opp + 4000) d))
           \<and> getOpportunity k (snd (getActiveOpportunities (detectedAt opp + 4000) d)) = Some opp
           \<and> opp \<notin> set (fst (getActiveOpportunities (detectedAt opp + 5001) d))
           \<and> getOpportunity k (snd (getActiveOpportunities (detectedAt opp + 5001) d)) = None)"
proof -
  note ex = getActiveOpportunities_exact[OF assms]
  have look: "getOpportunity k (snd (getActiveOpportunities t d)) =
             (if expiresAt opp > t then Some opp else None)"
    if "(k, opp) \<in> set (opportunities d)" for k opp t
    using map_of_filter_distinct[OF assms that, of "\<lambda>e. expiresAt (snd e) > t"]
    by (simp add: ex getOpportunity_def)
  have ttl: "opp \<in> set (fst (getActiveOpportunities (detectedAt opp + 4000) d))
           \<and> getOpportunity k (snd (getActiveOpportunities (detectedAt opp + 4000) d)) = Some opp
           \<and> opp \<notin> set (fst (getActiveOpportunities (detectedAt opp + 5001) d))
           \<and> getOpportunity k (snd (getActiveOpportunities (detectedAt opp + 5001) d)) = None"
    if "(k, opp) \<in> set (opportunities d)" "expiresAt opp = detectedAt opp + 5000" for k opp
  proof -
    have "opp \<in> set (fst (getActiveOpportunities (detectedAt opp + 4000) d))"
      using that by (force simp: ex)
    moreover have "opp \<notin> set (fst (getActiveOpportunities (detectedAt opp + 5001) d))"
      using that(2) by (auto simp: ex)
    ultimately show ?thesis using look[OF that(1)] that(2) by simp
  qed
  show ?thesis
  proof (intro conjI)
    show "fst (getActiveOpportunities now d) =
       map snd (filter (\<lambda>e. expiresAt (snd e) > now) (opportunities d))"
      by (simp add: ex)
    show "opportunities (snd (getActiveOpportunities now d)) =
         filter (\<lambda>e. expiresAt (snd e) > now) (opportunities d)"
      by (simp add: ex)
    show "\<forall>k opp. (k, opp) \<in> set (opportunities d) \<longrightarrow>
           getOpportunity k (snd (getActiveOpportunities now d)) =
             (if expiresAt opp > now then Some opp else None)"
      using look by blast
    show "\<forall>k opp. (k, opp) \<in> set (opportunities d) \<and> expiresAt opp = detectedAt opp + 5000 \<longrightarrow>
           opp \<in> set (fst (getActiveOpportunities (detectedAt opp + 4000) d))
           \<and> getOpportunity k (snd (getActiveOpportunities (detectedAt opp + 4000) d)) = Some opp
           \<and> opp \<notin> set (fst (getActiveOpportunities (detectedAt opp + 5001) d))
           \<and> getOpportunity k (snd (getActiveOpportunities (detectedAt opp + 5001) d)) = None"
      using ttl by blast
  qed
qed

theorem getActiveOpportunities_lazy_expiry_witness:
  "distinct (map fst (opportunities detectorEx))
   \<and> fst (getActiveOpportunities 5000 detectorEx) = [oppEx]
   \<and> opportunities (snd (getActiveOpportunities 5000 detectorEx)) = [(''opp-1'', oppEx)]
   \<and> fst (getActiveOpportunities 6001 detectorEx) = []
   \<and> opportunities (snd (getActiveOpportunities 6001 detectorEx)) = []
   \<and> getOpportunity ''opp-1'' (snd (getActiveOpportunities 6001 detectorEx)) = None"
proof -
  have d: "distinct (map fst (opportunities detectorEx))"
    by (simp add: detectorEx_def newDetector_def)
  have e: "expiresAt oppEx = 6000" by (simp add: oppEx_def)
  show ?thesis
    using getActiveOpportunities_lazy_expiry[OF d, of 5000]
      getActiveOpportunities_lazy_expiry[OF d, of 6001] d e
    by (simp add: detectorEx_def newDetector_def)
qed

subsection \<open>\<open>getHistory\<close>\<close>

lemma getHistory_recent:
  assumes "1 \<le> limit"
  shows "getHistory limit d = drop (length (opportunityHistory d) - nat limit) (opportunityHistory d)"
proof -
  let ?h = "opportunityHistory d"
  have "nat (max (int (length ?h) + - limit) 0) = length ?h - nat limit"
    using assms by linarith
  then show ?thesis using assms by (simp add: getHistory_def slice_from_def Let_def)
qed

text \<open>
  Claim C10. For every limit of at least 1, \<open>getHistory(limit)\<close> returns the last
  \<open>min(limit, length)\<close> entries of the history in detection order; for the limit 0 it
  returns the whole history.
\<close>

theorem getHistory_limit:
  "(1 \<le> limit \<longrightarrow>
      getHistory limit d =
        drop (length (opportunityHistory d) - nat limit) (opportunityHistory d)
      \<and> length (getHistory limit d) = min (nat limit) (length (opportunityHistory d)))
   \<and> getHistory 0 d = opportunityHistory d"
proof -
  have "getHistory 0 d = opportunityHistory d"
    by (simp add: getHistory_def slice_from_def)
  moreover have "length (getHistory limit d) = min (nat limit) (length (opportunityHistory d))"
    if "1 \<le> limit"
    by (simp add: getHistory_recent[OF that] min_def)
  ultimately show ?thesis using getHistory_recent[of limit d] by blast
qed

theorem getHistory_limit_witness:
  "(1::int) \<le> 1 \<and> getHistory 1 (detectorEx\<lparr>opportunityHistory := [oppEx\<lparr>opp_id := ''opp-0''\<rparr>, oppEx]\<rparr>) = [oppEx]
   \<and> getHistory 0 (detectorEx\<lparr>opportunityHistory := [oppEx\<lparr>opp_id := ''opp-0''\<rparr>, oppEx]\<rparr>)
       = [oppEx\<lparr>opp_id := ''opp-0''\<rparr>, oppEx]"
  using getHistory_limit[of 1 "detectorEx\<lparr>opportunityHistory := [oppEx\<lparr>opp_id := ''opp-0''\<rparr>, oppEx]\<rparr>"]
  by simp

section \<open>Properties of the pairwise candidates\<close>

lemma candidateOf_iff:
  "c \<in> set (candidateOf b s) \<longleftrightarrow>
     dex b \<noteq> dex s \<and> price b \<noteq> 0
     \<and> ((price s - (1 / price b)) / (1 / price b)) * 10000 > 0
     \<and> c = \<lparr>c_buyDex = dex b, c_sellDex = dex s, c_buyQuote = b, c_sellQuote = s,
            c_spreadBps = ((price s - (1 / price b)) / (1 / price b)) * 10000,
            c_estimatedProfit = (outputAmount s - inputAmount b) - (fees b + fees s)\<rparr>"
  by (auto simp: candidateOf_def spreadBpsOf_def split: option.splits if_splits)

text \<open>
  Claim C2. The candidates of a pairwise scan are exactly the pairs of a buy quote and a
  sell quote of different venues, with a non-zero buy price, whose spread
  \<open>((sellPrice - (1 / buyPrice)) / (1 / buyPrice)) * 10000\<close> is positive; the spread of
  a candidate, and of the opportunity built from it, is that value: the buy price is
  inverted before it is subtracted from the sell price. For a buy price of 0.015 and a
  sell price of 70 the spread is 500 basis points.
\<close>

theorem pairwise_spread_formula:
  "(c \<in> set (getCrossExchangeQuotes buyQuotes sellQuotes) \<longleftrightarrow>
      (\<exists>b \<in> set buyQuotes. \<exists>s \<in> set sellQuotes.
          dex b \<noteq> dex s \<and> price b \<noteq> 0
        \<and> ((price s - (1 / price b)) / (1 / price b)) * 10000 > 0
        \<and> c = \<lparr>c_buyDex = dex b, c_sellDex = dex s, c_buyQuote = b, c_sellQuote = s,
               c_spreadBps = ((price s - (1 / price b)) / (1 / price b)) * 10000,
               c_estimatedProfit = (outputAmount s - inputAmount b) - (fees b + fees s)\<rparr>))
   \<and> (c \<in> set (getCrossExchangeQuotes buyQuotes sellQuotes) \<longrightarrow>
        c_spreadBps c =
          ((price (c_sellQuote c) - (1 / price (c_buyQuote c))) / (1 / price (c_buyQuote c)))
            * 10000
        \<and> spreadBps (pairOpportunity cfg env k token amount solPrice c) = c_spreadBps c)"
proof -
  have mem: "c \<in> set (getCrossExchangeQuotes buyQuotes sellQuotes) \<longleftrightarrow>
      (\<exists>b \<in> set buyQuotes. \<exists>s \<in> set sellQuotes. c \<in> set (candidateOf b s))"
    by (auto simp: getCrossExchangeQuotes_def)
  show ?thesis unfolding mem candidateOf_iff
    by (auto simp: pairOpportunity_def Let_def)
qed

theorem pairwise_spread_formula_witness:
  "\<lparr>c_buyDex = ''raydium'', c_sellDex = ''jupiter'', c_buyQuote = buyQuoteEx,
     c_sellQuote = sellQuoteEx, c_spreadBps = 500, c_estimatedProfit = 4.998\<rparr>
     \<in> set (getCrossExchangeQuotes [buyQuoteEx] [sellQuoteEx])
   \<and> ((70 - (1 / 0.015)) / (1 / 0.015)) * 10000 = (500 :: real)"
  using pairwise_spread_formula[of "\<lparr>c_buyDex = ''raydium'', c_sellDex = ''jupiter'',
     c_buyQuote = buyQuoteEx, c_sellQuote = sellQuoteEx, c_spreadBps = 500,
     c_estimatedProfit = 4.998\<rparr>" "[buyQuoteEx]" "[sellQuoteEx]"]
  by (simp add: buyQuoteEx_def sellQuoteEx_def)

section \<open>Admission in the two scans\<close>

lemma scannedGraph_neighbors:
  "getNeighbors scannedGraph SOL
     = [\<lparr>edge_to = USDC, edge_dex = ''jupiter'', edge_price = 1.01, edge_quote = Some legQuote1\<rparr>]"
  "getNeighbors scannedGraph USDC
     = [\<lparr>edge_to = USDT, edge_dex = ''raydium'', edge_price = 1.02, edge_quote = Some legQuote2\<rparr>]"
  "getNeighbors scannedGraph USDT
     = [\<lparr>edge_to = SOL, edge_dex = ''orca'', edge_price = 1, edge_quote = Some legQuote3\<rparr>]"
  by (simp_all add: scannedGraph_def getNeighbors_def updateEdge_def newTokenGraph_def TOKENS_def
        legQuote1_def legQuote2_def legQuote3_def SOL_def USDC_def USDT_def sameKey_def)

lemma scannedGraph_triangles:
  "findTriangles scannedGraph SOL
   = [\<lparr>path = [\<lparr>edge_to = USDC, edge_dex = ''jupiter'', edge_price = 1.01, edge_quote = Some legQuote1\<rparr>,
              \<lparr>edge_to = USDT, edge_dex = ''raydium'', edge_price = 1.02, edge_quote = Some legQuote2\<rparr>,
              \<lparr>edge_to = SOL, edge_dex = ''orca'', edge_price = 1, edge_quote = Some legQuote3\<rparr>],
       profitBps = 302\<rparr>]"
proof -
  have ne: "USDT \<noteq> SOL" by (simp add: USDT_def SOL_def)
  show ?thesis
    by (simp add: findTriangles_def scannedGraph_neighbors closeTriangle_def ne)
qed

text \<open>
  Claim C3. The claim says that both scans apply the same admission filters. The cyclic
  scan tests the spread minimum and the net profit only: on the three quotes of the
  example, whose first leg has a price impact of 5 against a ceiling of 1 and a known
  liquidity of 100 against a minimum of 10000, it emits the triangle, while
  \<open>passesFilters\<close> rejects the same two quotes with the same spread and the loop of the
  pairwise scan skips a candidate made of them.
\<close>

theorem scanGraph_skips_leg_filters:
  "map (\<lambda>opp. (buyQuote opp, sellQuote opp, spreadBps opp))
       (fst (scanGraph envEx 1 [legQuote1, legQuote2, legQuote3] 100 (newDetector cfgEx, (), [])))
     = [(Some legQuote1, Some legQuote3, 302)]
   \<and> \<not> passesFilters cfgEx legQuote1 legQuote3 302
   \<and> fst (scanTokenLoop envEx USDC 1 100
             [\<lparr>c_buyDex = ''jupiter'', c_sellDex = ''orca'', c_buyQuote = legQuote1,
               c_sellQuote = legQuote3, c_spreadBps = 302, c_estimatedProfit = 0\<rparr>]
             ([], newDetector cfgEx, (), [])) = []"
proof -
  have cfg: "config (newDetector cfgEx :: unit Detector) = cfgEx"
    "graph (newDetector cfgEx :: unit Detector) = newTokenGraph"
    by (simp_all add: newDetector_def)
  have "scanGraph envEx 1 [legQuote1, legQuote2, legQuote3] 100 (newDetector cfgEx, (), [])
      = scanGraphLoop envEx 1 100 (findTriangles scannedGraph SOL)
          ([], (newDetector cfgEx)\<lparr>graph := scannedGraph\<rparr>, (), [])"
    unfolding scanGraph_def scannedGraph_def by (simp only: prod.case Let_def) (simp add: cfg)
  then have a: "map (\<lambda>opp. (buyQuote opp, sellQuote opp, spreadBps opp))
       (fst (scanGraph envEx 1 [legQuote1, legQuote2, legQuote3] 100 (newDetector cfgEx, (), [])))
     = [(Some legQuote1, Some legQuote3, 302)]"
    by (simp add: scannedGraph_triangles cfg admitsTriangle_def cfgEx_def triOpportunity_def
        Let_def emitOpportunity_def newDetector_def)
  have b: "\<not> passesFilters cfgEx legQuote1 legQuote3 302"
    by (simp add: passesFilters_def cfgEx_def legQuote1_def legQuote3_def)
  have c: "fst (scanTokenLoop envEx USDC 1 100
             [\<lparr>c_buyDex = ''jupiter'', c_sellDex = ''orca'', c_buyQuote = legQuote1,
               c_sellQuote = legQuote3, c_spreadBps = 302, c_estimatedProfit = 0\<rparr>]
             ([], newDetector cfgEx, (), [])) = []"
    using b by (simp add: admitsPair_def cfg)
  from a b c show ?thesis by blast
qed

section \<open>Properties of the emission\<close>

lemma notifyCallbacks_eq:
  "notifyCallbacks cbs opp (w, lg) =
     (runAllCallbacks cbs opp w,
      lg @ map (LogError ''Callback error'') (thrownMessages (callbackOutcomes cbs opp w)))"
proof (induction cbs arbitrary: w lg)
  case Nil
  then show ?case by (simp add: runAllCallbacks_def)
next
  case (Cons cb cbs)
  obtain r w1 where r: "cb opp w = (r, w1)" by (cases "cb opp w")
  show ?case
  proof (cases r)
    case (Inl e)
    with r Cons.IH[of w1 "lg @ [LogError ''Callback error'' e]"] show ?thesis
      by (simp add: runAllCallbacks_def)
  next
    case (Inr u)
    with r Cons.IH[of w1 lg] show ?thesis
      by (simp add: runAllCallbacks_def)
  qed
qed

lemma length_callbackOutcomes: "length (callbackOutcomes cbs opp w) = length cbs"
  by (induction cbs arbitrary: w) auto

lemma emitOpportunity_eq:
  "emitOpportunity token opp (d, w, lg) =
    (d\<lparr>opportunities := AList.update (opp_id opp) opp (opportunities d),
       opportunityHistory := opportunityHistory d @ [opp]\<rparr>,
     runAllCallbacks (onOpportunityCallbacks d) opp w,
     lg @ [LogOpportunity (buyDex opp) (sellDex opp) token (spreadBps opp) (estimatedProfitUsd opp)]
        @ map (LogError ''Callback error'')
            (thrownMessages (callbackOutcomes (onOpportunityCallbacks d) opp w)))"
  by (simp add: emitOpportunity_def Let_def notifyCallbacks_eq)

lemma emitOpportunity_distinct:
  assumes "emitOpportunity token opp (d, w, lg) = (d', w', lg')"
    "distinct (map fst (opportunities d))"
  shows "distinct (map fst (opportunities d'))"
  using assms by (auto simp: emitOpportunity_eq distinct_update)

subsection \<open>The map keeps distinct keys\<close>

text \<open>The keys of the active map are distinct in a new detector and stay so through
  emissions, scans and the active-set query; the timestamps of an emitted opportunity
  are the two clock readings, the second one moved by the configured time to live.\<close>

lemma newDetector_distinct: "distinct (map fst (opportunities (newDetector cfg)))"
  by (simp add: newDetector_def)

lemma getActiveOpportunities_distinct:
  assumes "distinct (map fst (opportunities d))"
  shows "distinct (map fst (opportunities (snd (getActiveOpportunities now d))))"
  using assms by (simp add: getActiveOpportunities_exact[OF assms] distinct_map_filter)

lemma scanTokenLoop_distinct:
  "scanTokenLoop env token amount solPrice cs (found, d, w, lg) = (found', d', w', lg') \<Longrightarrow>
   distinct (map fst (opportunities d)) \<Longrightarrow> distinct (map fst (opportunities d'))"
proof (induction cs arbitrary: found d w lg)
  case Nil
  then show ?case by simp
next
  case (Cons c cs)
  show ?case
  proof (cases "admitsPair (config d) amount solPrice c")
    case False
    with Cons.prems(1) have
      "scanTokenLoop env token amount solPrice cs (found, d, w, lg) = (found', d', w', lg')"
      by simp
    from Cons.IH[OF this Cons.prems(2)] show ?thesis .
  next
    case True
    define opp where "opp = pairOpportunity (config d) env (length found) token amount solPrice c"
    obtain d1 w1 lg1 where e: "emitOpportunity token opp (d, w, lg) = (d1, w1, lg1)"
      by (cases "emitOpportunity token opp (d, w, lg)")
    from Cons.prems(1) True e have
      "scanTokenLoop env token amount solPrice cs (found @ [opp], d1, w1, lg1) = (found', d', w', lg')"
      by (simp add: opp_def Let_def)
    from Cons.IH[OF this emitOpportunity_distinct[OF e Cons.prems(2)]] show ?thesis .
  qed
qed

lemma scanGraphLoop_distinct:
  "scanGraphLoop env amount solPrice ts (found, d, w, lg) = (found', d', w', lg') \<Longrightarrow>
   distinct (map fst (opportunities d)) \<Longrightarrow> distinct (map fst (opportunities d'))"
proof (induction ts arbitrary: found d w lg)
  case Nil
  then show ?case by simp
next
  case (Cons t ts)
  show ?case
  proof (cases "admitsTriangle (config d) amount solPrice t")
    case False
    with Cons.prems(1) have
      "scanGraphLoop env amount solPrice ts (found, d, w, lg) = (found', d', w', lg')"
      by simp
    from Cons.IH[OF this Cons.prems(2)] show ?thesis .
  next
    case True
    show ?thesis
    proof (cases "triOpportunity (config d) env (length found) amount solPrice t")
      case None
      with True Cons.prems show ?thesis by auto
    next
      case (Some opp)
      obtain d1 w1 lg1 where e: "emitOpportunity ''TRI-ARB'' opp (d, w, lg) = (d1, w1, lg1)"
        by (cases "emitOpportunity ''TRI-ARB'' opp (d, w, lg)")
      from Cons.prems(1) True Some e have
        "scanGraphLoop env amount solPrice ts (found @ [opp], d1, w1, lg1) = (found', d', w', lg')"
        by simp
      from Cons.IH[OF this emitOpportunity_distinct[OF e Cons.prems(2)]] show ?thesis .
    qed
  qed
qed

lemma scan_timestamps:
  "detectedAt (pairOpportunity cfg env k token amount solPrice c) = clockDetected env k"
  "expiresAt (pairOpportunity cfg env k token amount solPrice c)
     = clockExpiry env k + opportunityTtlMs cfg"
  "triOpportunity cfg env k amount solPrice tri = Some opp \<Longrightarrow>
     detectedAt opp = clockDetected env k \<and> expiresAt opp = clockExpiry env k + opportunityTtlMs cfg"
  by (auto simp: pairOpportunity_def triOpportunity_def Let_def split: list.splits)

subsection \<open>The scans emit the admitted candidates\<close>



lemma storeAll_append: "storeAll (xs @ ys) m = storeAll ys (storeAll xs m)"
  by (simp add: storeAll_def)

lemma emissionLog_append:
  "emissionLog token cbs (xs @ ys) w =
     emissionLog token cbs xs w @ emissionLog token cbs ys (fold (runAllCallbacks cbs) xs w)"
  by (induction xs arbitrary: w) auto















section \<open>Properties of the risk manager\<close>

lemma clampSize_min:
  "fst (clampSize lims s bal) =
     min s (min (maxTradeSizeSol lims) (bal * maxPositionPercent lims / 100))"
  by (simp add: clampSize_def Let_def min_def split: prod.splits)

lemma clampSize_warns:
  "snd (clampSize lims s bal) \<noteq> [] \<longleftrightarrow> fst (clampSize lims s bal) < s"
  by (auto simp: clampSize_def Let_def split: prod.splits if_splits)

lemma checkLegs_warnings: "\<exists>more. warnings (checkLegs lims opp bq sq t sz ws) = ws @ more"
  by (auto simp: checkLegs_def Let_def reject_def)

lemma checkLegs_passed:
  "passed (checkLegs lims opp bq sq t sz ws) \<Longrightarrow>
     adjustedSize (checkLegs lims opp bq sq t sz ws) = Some sz"
  by (auto simp: checkLegs_def Let_def reject_def split: if_splits)

lemma checkTrade_after_clamp:
  assumes "r = checkDailyReset nowReset r0"
    and "\<not> dailyPnL r < - dailyLossLimitUsd (limits r)"
    and "\<not> spreadBps opp < limit_minProfitBps (limits r)"
    and "clampSize (limits r) (tradeSize opp) bal = (sz, ws)"
  shows "fst (checkTrade opp bal nowReset nowAge r0) =
      (if sz < 0.01 then Inr (reject TradeSizeTooSmall ws)
       else case (buyQuote opp, sellQuote opp) of
              (Some buyQ, Some sellQ) \<Rightarrow> Inr (checkLegs (limits r) opp buyQ sellQ nowAge sz ws)
            | _ \<Rightarrow> Inl ''Cannot read properties of undefined'')"
  using assms by (simp add: checkTrade_def Let_def split: option.splits)

text \<open>
  Claim C5. When \<open>checkTrade\<close> reaches the size clamp (the daily-loss and the
  minimum-profit checks have not rejected), the proposed size is the minimum of the
  opportunity's trade size, the configured maximum trade size and
  \<open>walletBalance * maxPositionPercent / 100\<close>; the clamp pushes a warning exactly when
  that size is smaller than the opportunity's; a size below the dust floor of 0.01 is
  rejected; every returned result carries the clamp's warnings first, and a passing
  result carries the clamped size. With a wallet balance of 10, a maximum position of
  50 percent, an opportunity size of 8 and a maximum trade size of 1 the adjusted size is
  1 and a warning is present.
\<close>

theorem checkTrade_size_clamp:
  assumes "r = checkDailyReset nowReset r0"
    and "\<not> dailyPnL r < - dailyLossLimitUsd (limits r)"
    and "\<not> spreadBps opp < limit_minProfitBps (limits r)"
    and "clampSize (limits r) (tradeSize opp) bal = (sz, ws)"
  shows "sz = min (tradeSize opp)
               (min (maxTradeSizeSol (limits r)) (bal * maxPositionPercent (limits r) / 100))
     \<and> (ws \<noteq> [] \<longleftrightarrow> sz < tradeSize opp)
     \<and> (sz < 0.01 \<longrightarrow>
          fst (checkTrade opp bal nowReset nowAge r0) = Inr (reject TradeSizeTooSmall ws))
     \<and> (\<forall>res. fst (checkTrade opp bal nowReset nowAge r0) = Inr res \<longrightarrow>
          (\<exists>more. warnings res = ws @ more)
          \<and> (passed res \<longrightarrow> adjustedSize res = Some sz \<and> \<not> sz < 0.01))"
proof (intro conjI allI impI)
  show "sz = min (tradeSize opp)
               (min (maxTradeSizeSol (limits r)) (bal * maxPositionPercent (limits r) / 100))"
    using clampSize_min[of "limits r" "tradeSize opp" bal] assms(4) by simp
  show "ws \<noteq> [] \<longleftrightarrow> sz < tradeSize opp"
    using clampSize_warns[of "limits r" "tradeSize opp" bal] assms(4) by simp
  note ct = checkTrade_after_clamp[OF assms, of nowAge]
  show "fst (checkTrade opp bal nowReset nowAge r0) = Inr (reject TradeSizeTooSmall ws)"
    if "sz < 0.01" using that ct by simp
  fix res assume res: "fst (checkTrade opp bal nowReset nowAge r0) = Inr res"
  show "\<exists>more. warnings res = ws @ more"
  proof (cases "sz < 0.01")
    case True
    with ct res show ?thesis by (simp add: reject_def)
  next
    case False
    with ct res obtain bq sq where "res = checkLegs (limits r) opp bq sq nowAge sz ws"
      by (auto split: option.splits)
    then show ?thesis using checkLegs_warnings by simp
  qed
  assume p: "passed res"
  have nd: "\<not> sz < 0.01"
  proof
    assume "sz < 0.01"
    with ct res p show False by (simp add: reject_def)
  qed
  with ct res obtain bq sq where "res = checkLegs (limits r) opp bq sq nowAge sz ws"
    by (auto split: option.splits)
  with p checkLegs_passed show "adjustedSize res = Some sz" by simp
  show "\<not> sz < 0.01" by (rule nd)
qed

theorem checkTrade_size_clamp_witness:
  "fst (checkTrade oppEx 10 1000 1000 riskEx) =
     Inr \<lparr>passed = True, reason = None, adjustedSize = Some 1,
          warnings = [TradeSizeCappedToMax 1]\<rparr>
   \<and> clampSize limitsEx 8 10 = (1, [TradeSizeCappedToMax 1])
   \<and> (1::real) = min 8 (min 1 (10 * 50 / 100))"
proof -
  have r: "riskEx = checkDailyReset 1000 riskEx"
    by (simp add: checkDailyReset_def riskEx_def newRiskManager_def dayMs_def)
  have l: "limits riskEx = limitsEx" by (simp add: riskEx_def newRiskManager_def)
  have a: "\<not> dailyPnL riskEx < - dailyLossLimitUsd (limits riskEx)"
    by (simp add: riskEx_def newRiskManager_def limitsEx_def)
  have b: "\<not> spreadBps oppEx < limit_minProfitBps (limits riskEx)"
    by (simp add: l limitsEx_def oppEx_def)
  have c: "clampSize (limits riskEx) (tradeSize oppEx) 10 = (1, [TradeSizeCappedToMax 1])"
    by (simp add: l limitsEx_def oppEx_def clampSize_def)
  have d: "fst (checkTrade oppEx 10 1000 1000 riskEx) =
     Inr \<lparr>passed = True, reason = None, adjustedSize = Some 1,
          warnings = [TradeSizeCappedToMax 1]\<rparr>"
  proof -
    have q: "buyQuote oppEx = Some buyQuoteEx" "sellQuote oppEx = Some sellQuoteEx"
      by (simp_all add: oppEx_def)
    have "checkLegs limitsEx oppEx buyQuoteEx sellQuoteEx 1000 1 [TradeSizeCappedToMax 1] =
        \<lparr>passed = True, reason = None, adjustedSize = Some 1,
          warnings = [TradeSizeCappedToMax 1]\<rparr>"
      by (simp add: checkLegs_def limitsEx_def buyQuoteEx_def sellQuoteEx_def oppEx_def)
    then show ?thesis
      using checkTrade_after_clamp[OF r a b c, of 1000] by (simp add: q l)
  qed
  from checkTrade_size_clamp[OF r a b c, of 1000] c d show ?thesis
    by (simp add: l oppEx_def)
qed

text \<open>
  Claim C4, as stated, fails: \<open>recordTrade(-60, false)\<close> counts a failure and leaves the
  profit and loss at 0, so the next \<open>checkTrade\<close> on a limit of 50 passes.
\<close>

theorem recordTrade_failed_loss_counterexample:
  "dailyPnL (recordTrade (- 60) False riskEx) = 0
   \<and> dailyLossLimitUsd (limits (recordTrade (- 60) False riskEx)) = 50
   \<and> fst (checkTrade oppEx 10 1000 1000 (recordTrade (- 60) False riskEx)) =
       Inr \<lparr>passed = True, reason = None, adjustedSize = Some 1,
            warnings = [TradeSizeCappedToMax 1]\<rparr>"
proof -
  let ?r = "recordTrade (- 60) False riskEx"
  have r: "?r = checkDailyReset 1000 ?r"
    by (simp add: checkDailyReset_def recordTrade_def riskEx_def newRiskManager_def dayMs_def)
  have l: "limits ?r = limitsEx" by (simp add: recordTrade_def riskEx_def newRiskManager_def)
  have p: "dailyPnL ?r = 0" by (simp add: recordTrade_def riskEx_def newRiskManager_def)
  have a: "\<not> dailyPnL ?r < - dailyLossLimitUsd (limits ?r)"
    by (simp add: p l limitsEx_def)
  have b: "\<not> spreadBps oppEx < limit_minProfitBps (limits ?r)"
    by (simp add: l limitsEx_def oppEx_def)
  have c: "clampSize (limits ?r) (tradeSize oppEx) 10 = (1, [TradeSizeCappedToMax 1])"
    by (simp add: l limitsEx_def oppEx_def clampSize_def)
  have q: "buyQuote oppEx = Some buyQuoteEx" "sellQuote oppEx = Some sellQuoteEx"
    by (simp_all add: oppEx_def)
  have "checkLegs limitsEx oppEx buyQuoteEx sellQuoteEx 1000 1 [TradeSizeCappedToMax 1] =
        \<lparr>passed = True, reason = None, adjustedSize = Some 1,
          warnings = [TradeSizeCappedToMax 1]\<rparr>"
    by (simp add: checkLegs_def limitsEx_def buyQuoteEx_def sellQuoteEx_def oppEx_def)
  then have "fst (checkTrade oppEx 10 1000 1000 ?r) =
       Inr \<lparr>passed = True, reason = None, adjustedSize = Some 1,
            warnings = [TradeSizeCappedToMax 1]\<rparr>"
    using checkTrade_after_clamp[OF r a b c, of 1000] by (simp add: q l)
  with p l show ?thesis by (simp add: limitsEx_def)
qed

text \<open>
  Claim C4, amended. \<open>recordTrade\<close> always increments the trade count, adds the profit
  to the daily profit and loss on success only, and increments the failure count on
  failure only. When the ledger is not older than 24 hours at the next \<open>checkTrade\<close> and
  the profit and loss after the recording is below minus the daily loss limit, that call
  rejects whatever the opportunity and the balance are, and the reason carries the
  amount of the loss; so it does after \<open>recordTrade(-60, true)\<close> on a new ledger with a
  limit of 50, with the amount 60.
\<close>

theorem recordTrade_daily_loss:
  "tradeCount (recordTrade profitUsd ok r) = tradeCount r + 1
   \<and> dailyPnL (recordTrade profitUsd ok r) = (if ok then dailyPnL r + profitUsd else dailyPnL r)
   \<and> failedTrades (recordTrade profitUsd ok r) = (if ok then failedTrades r else failedTrades r + 1)
   \<and> limits (recordTrade profitUsd ok r) = limits r
   \<and> dailyStartTime (recordTrade profitUsd ok r) = dailyStartTime r
   \<and> (nowReset - dailyStartTime r \<le> dayMs
        \<and> dailyPnL (recordTrade profitUsd ok r) < - dailyLossLimitUsd (limits r) \<longrightarrow>
      fst (checkTrade opp walletBalanceSol nowReset nowAge (recordTrade profitUsd ok r)) =
        Inr \<lparr>passed = False,
             reason = Some (DailyLossLimitReached \<bar>dailyPnL (recordTrade profitUsd ok r)\<bar>),
             adjustedSize = None, warnings = []\<rparr>)"
proof -
  have f: "tradeCount (recordTrade profitUsd ok r) = tradeCount r + 1"
    "dailyPnL (recordTrade profitUsd ok r) = (if ok then dailyPnL r + profitUsd else dailyPnL r)"
    "failedTrades (recordTrade profitUsd ok r) = (if ok then failedTrades r else failedTrades r + 1)"
    "limits (recordTrade profitUsd ok r) = limits r"
    "dailyStartTime (recordTrade profitUsd ok r) = dailyStartTime r"
    by (simp_all add: recordTrade_def Let_def)
  have "fst (checkTrade opp walletBalanceSol nowReset nowAge (recordTrade profitUsd ok r)) =
        Inr \<lparr>passed = False,
             reason = Some (DailyLossLimitReached \<bar>dailyPnL (recordTrade profitUsd ok r)\<bar>),
             adjustedSize = None, warnings = []\<rparr>"
    if "nowReset - dailyStartTime r \<le> dayMs"
      "dailyPnL (recordTrade profitUsd ok r) < - dailyLossLimitUsd (limits r)"
  proof -
    have "checkDailyReset nowReset (recordTrade profitUsd ok r) = recordTrade profitUsd ok r"
      using that(1) by (simp add: checkDailyReset_def f(5))
    then show ?thesis using that(2)
      by (simp add: checkTrade_def Let_def f(4) reject_def)
  qed
  with f show ?thesis by blast
qed

theorem recordTrade_daily_loss_witness:
  "(1000 - dailyStartTime riskEx \<le> dayMs)
   \<and> dailyPnL (recordTrade (- 60) True riskEx) = - 60
   \<and> dailyLossLimitUsd (limits riskEx) = 50
   \<and> tradeCount (recordTrade (- 60) True riskEx) = 1
   \<and> failedTrades (recordTrade (- 60) True riskEx) = 0
   \<and> fst (checkTrade oppEx 10 1000 1000 (recordTrade (- 60) True riskEx)) =
        Inr \<lparr>passed = False, reason = Some (DailyLossLimitReached 60),
             adjustedSize = None, warnings = []\<rparr>"
  using recordTrade_daily_loss[of "- 60" True riskEx 1000 oppEx 10 1000]
  by (simp add: riskEx_def newRiskManager_def limitsEx_def dayMs_def)

section \<open>Properties of the executor\<close>















end
